theory Spec2Isabelle
  imports Main "HOL-Library.Product_Lexorder"
begin

section \<open>The workflow-instance engine of \<open>daemon.ts\<close>\<close>

text \<open>
  A shallow embedding of the class \<open>Engine\<close> (second document of
  \<open>src/packages/wrangler/src/dev-registry/daemon.ts\<close>). The object's fields are a record,
  every method takes the engine and returns its result together with the engine it leaves
  behind. A thrown value is \<open>Inl\<close>, a normal completion \<open>Inr\<close>.
\<close>

subsection \<open>Values and enumerations\<close>

text \<open>
  JavaScript values as far as the engine looks into them: it reads \<open>name\<close> and
  \<open>message\<close> of an \<open>Error\<close>, and builds object literals. \<open>JEnum e m\<close> stands for the
  member \<open>m\<close> of an enumeration \<open>e\<close> whose numeric value is declared elsewhere.
\<close>

datatype jsval =
    JUndefined
  | JNull
  | JBool bool
  | JNum int
  | JStr string
  | JEnum string string
  | JError string string
  | JObject "(string \<times> jsval) list"

text \<open>
  Modelled from the spec: the enumerations \<open>InstanceStatus\<close> and \<open>InstanceEvent\<close> are
  imported from \<open>./instance\<close>; their members are those the specification lists
  (\<open>Queued | Running | Errored | Terminated | Complete\<close> and the four event kinds this
  engine writes).
\<close>

datatype InstanceStatus = Queued | Running | Errored | Terminated | Complete

datatype InstanceEvent =
  WORKFLOW_QUEUED | WORKFLOW_START | WORKFLOW_SUCCESS | WORKFLOW_FAILURE

text \<open>
  Modelled from the spec: the storage key \<open>INSTANCE_METADATA\<close> is imported from
  \<open>./instance\<close>; it names the singleton slot.
\<close>

definition INSTANCE_METADATA :: string where
  "INSTANCE_METADATA = ''INSTANCE_METADATA''"

subsection \<open>The database rows handed to \<open>init\<close>\<close>

record DatabaseWorkflow =
  name :: string
  id :: string
  created_on :: string
  modified_on :: string
  script_name :: string
  class_name :: "string option"
  triggered_on :: "string option"

record DatabaseVersion =
  id :: string
  class_name :: string
  created_on :: string
  modified_on :: string
  workflow_id :: string
  mutable_pipeline_id :: string

record DatabaseInstance =
  name :: string
  created_on :: string
  modified_on :: string
  workflow_id :: string
  version_id :: string
  status :: InstanceStatus
  started_on :: "string option"
  ended_on :: "string option"

text \<open>\<open>WorkflowEvent<unknown>\<close>: the engine reads the payload only.\<close>

record WorkflowEvent =
  payload :: jsval

record InstanceMetadata =
  accountId :: int
  workflow :: DatabaseWorkflow
  version :: DatabaseVersion
  "instance" :: DatabaseInstance
  event :: WorkflowEvent

text \<open>The object pushed by \<open>writeLog\<close>.\<close>

record LogEntry =
  event :: InstanceEvent
  group :: "string option"
  target :: "string option"
  metadata :: "(string \<times> jsval) list"

subsection \<open>The durable object's state: key/value slot, table, alarm\<close>

text \<open>
  A row of the table \<open>priority_queue\<close>, column by column as the constructor's
  \<open>CREATE TABLE\<close> declares it.
\<close>

record ScheduledEntry =
  id :: nat
  created_on :: int
  target_timestamp :: int
  action :: int
  entryType :: int
  hash :: string

text \<open>
  \<open>this.ctx\<close>: the key/value storage (\<open>kv\<close>), the sequence of \<open>put\<close> calls made on it
  so far (\<open>puts\<close>, kept so that writes can be counted), the rows of \<open>priority_queue\<close> in
  insertion order, and the one alarm the host holds for the object. Storage operations and
  transactions are taken to commit; a failing store is outside this model.
\<close>

record DurableObjectState =
  kv :: "string \<rightharpoonup> InstanceMetadata"
  puts :: "(string \<times> InstanceMetadata) list"
  priority_queue :: "ScheduledEntry list"
  alarm :: "int option"

definition storage_get :: "string \<Rightarrow> DurableObjectState \<Rightarrow> InstanceMetadata option" where
  "storage_get key c = kv c key"

definition storage_put ::
  "string \<Rightarrow> InstanceMetadata \<Rightarrow> DurableObjectState \<Rightarrow> DurableObjectState" where
  "storage_put key v c = c\<lparr>kv := (kv c)(key \<mapsto> v), puts := puts c @ [(key, v)]\<rparr>"

subsection \<open>The table's constraints\<close>

text \<open>
  What SQLite enforces for the declared table: \<open>CHECK (action IN (0, 1))\<close> and
  \<open>UNIQUE (action, entryType, hash)\<close>. An \<open>INSERT\<close> that breaks either is rejected and
  leaves the table as it was; the primary key is the next free row id.
\<close>

datatype sql_error = CheckViolation | UniqueViolation

definition row_key :: "ScheduledEntry \<Rightarrow> int \<times> int \<times> string" where
  "row_key r = (action r, entryType r, hash r)"

definition next_id :: "ScheduledEntry list \<Rightarrow> nat" where
  "next_id tbl = Suc (fold max (map ScheduledEntry.id tbl) 0)"

definition sql_insert ::
  "int \<Rightarrow> int \<Rightarrow> int \<Rightarrow> int \<Rightarrow> string \<Rightarrow> ScheduledEntry list
     \<Rightarrow> sql_error + ScheduledEntry list" where
  "sql_insert clock target_ts act ty h tbl =
     (if act \<notin> {0, 1} then Inl CheckViolation
      else if (act, ty, h) \<in> set (map row_key tbl) then Inl UniqueViolation
      else Inr (tbl @ [\<lparr>ScheduledEntry.id = next_id tbl, created_on = clock,
                        target_timestamp = target_ts, action = act, entryType = ty,
                        hash = h\<rparr>]))"

definition sql_delete ::
  "(ScheduledEntry \<Rightarrow> bool) \<Rightarrow> ScheduledEntry list \<Rightarrow> ScheduledEntry list" where
  "sql_delete doomed tbl = filter (\<lambda>r. \<not> doomed r) tbl"

subsection \<open>TimePriorityQueue\<close>

text \<open>
  Modelled from the spec: the class \<open>TimePriorityQueue\<close> (\<open>./lib/timePriorityQueue\<close>) is
  not among the sources. Section 4.2 of the specification gives its operations:
  \<open>enqueue\<close> inserts an add-row (\<open>action = 1\<close>) and is a no-op when the row exists;
  \<open>popPastEntries\<close> removes and returns every entry with \<open>target_timestamp <= now\<close>,
  ordered by \<open>target_timestamp\<close> and then by row id; \<open>handleNextAlarm\<close> arms the one
  wake-up at the least remaining \<open>target_timestamp\<close> and cancels it when no entry is
  left. The queue is bound to the context and the metadata the engine constructs it with.
\<close>

record TimePriorityQueue =
  instanceMetadata :: InstanceMetadata

definition enqueue ::
  "int \<Rightarrow> int \<Rightarrow> string \<Rightarrow> int \<Rightarrow> DurableObjectState \<Rightarrow> DurableObjectState" where
  "enqueue clock ty h target_ts c =
     (case sql_insert clock target_ts 1 ty h (priority_queue c) of
        Inl _ \<Rightarrow> c
      | Inr tbl \<Rightarrow> c\<lparr>priority_queue := tbl\<rparr>)"

definition is_due :: "int \<Rightarrow> ScheduledEntry \<Rightarrow> bool" where
  "is_due clock r = (target_timestamp r \<le> clock)"

definition popPastEntries ::
  "int \<Rightarrow> DurableObjectState \<Rightarrow> ScheduledEntry list \<times> DurableObjectState" where
  "popPastEntries clock c =
     (sort_key (\<lambda>r. (target_timestamp r, ScheduledEntry.id r))
        (filter (is_due clock) (priority_queue c)),
      c\<lparr>priority_queue := sql_delete (is_due clock) (priority_queue c)\<rparr>)"

definition next_wakeup :: "ScheduledEntry list \<Rightarrow> int option" where
  "next_wakeup tbl =
     (case tbl of [] \<Rightarrow> None
      | r # rs \<Rightarrow> Some (fold min (map target_timestamp rs) (target_timestamp r)))"

definition handleNextAlarm :: "DurableObjectState \<Rightarrow> DurableObjectState" where
  "handleNextAlarm c = c\<lparr>alarm := next_wakeup (priority_queue c)\<rparr>"

subsection \<open>The engine\<close>

text \<open>
  Modelled from the spec: \<open>GracePeriodSemaphore\<close> (\<open>./lib/gracePeriodSemaphore\<close>) is not
  among the sources; section 3 describes it as \<open>{deadline, timeoutMs}\<close>, armed or not.
  The engine only constructs it.
\<close>

record GracePeriodSemaphore =
  timeoutMs :: int
  deadline :: "int option"

text \<open>
  A transaction that has been asked of the store and not yet run. \<open>init\<close> starts one
  without awaiting it (\<open>void workflowRunningHandler()\<close>); its body is a \<open>setStatus\<close>
  call, kept here with its arguments.
\<close>

datatype StartedTransaction = SetStatusTransaction int string InstanceStatus

text \<open>
  The fields of the class, and \<open>started\<close>: the transactions this activation has started
  and not awaited, oldest first. They are not a field of the class; they are the promises
  the event loop holds for it.
\<close>

record Engine =
  logs :: "LogEntry list"
  status :: InstanceStatus
  isRunning :: bool
  accountId :: "int option"
  instanceId :: "string option"
  workflowName :: "string option"
  timeoutHandler :: GracePeriodSemaphore
  priorityQueue :: "TimePriorityQueue option"
  ctx :: DurableObjectState
  started :: "StartedTransaction list"

text \<open>
  The step context handed to the user's workflow: \<open>new Context(this, this.ctx)\<close>. The
  user's \<open>run\<close> is opaque; it resolves with a value (\<open>Inr\<close>) or throws one (\<open>Inl\<close>).
\<close>

datatype Context = Context Engine

record WorkflowEntrypoint =
  run :: "WorkflowEvent \<Rightarrow> Context \<Rightarrow> jsval + jsval"

record Env =
  USER_WORKFLOW :: WorkflowEntrypoint

text \<open>
  The constructor: \<open>CREATE TABLE IF NOT EXISTS\<close> keeps the rows of a table that exists
  and starts an absent one empty, so the rows of \<open>state\<close> are as they were; the fields get
  their initialisers. \<open>ENGINE_TIMEOUT\<close> is imported and so is a parameter here.
\<close>

definition new_Engine :: "int \<Rightarrow> DurableObjectState \<Rightarrow> Engine" where
  "new_Engine engine_timeout state =
     \<lparr>logs = [], status = Queued, isRunning = False, accountId = None,
      instanceId = None, workflowName = None,
      timeoutHandler = \<lparr>timeoutMs = engine_timeout, deadline = None\<rparr>,
      priorityQueue = None, ctx = state, started = []\<rparr>"

definition writeLog ::
  "InstanceEvent \<Rightarrow> string option \<Rightarrow> string option \<Rightarrow> (string \<times> jsval) list
     \<Rightarrow> Engine \<Rightarrow> Engine" where
  "writeLog ev grp tgt md s =
     s\<lparr>logs := logs s @ [\<lparr>LogEntry.event = ev, group = grp, target = tgt, metadata = md\<rparr>]\<rparr>"

definition readLogs :: "Engine \<Rightarrow> LogEntry list \<times> Engine" where
  "readLogs s = (logs s, s)"

definition getStatus :: "int \<Rightarrow> string \<Rightarrow> Engine \<Rightarrow> InstanceStatus \<times> Engine" where
  "getStatus account inst s = (Engine.status s, s)"

definition setStatus :: "int \<Rightarrow> string \<Rightarrow> InstanceStatus \<Rightarrow> Engine \<Rightarrow> unit \<times> Engine" where
  "setStatus account inst st s = ((), s\<lparr>Engine.status := st\<rparr>)"

definition abort :: "string \<Rightarrow> Engine \<Rightarrow> unit \<times> Engine" where
  "abort reason s = ((), s)"

definition userTriggeredTerminate :: "Engine \<Rightarrow> unit \<times> Engine" where
  "userTriggeredTerminate s = ((), s)"

text \<open>
  The store runs transactions in the order they were asked for. \<open>commit_started\<close> is
  the moment the started ones run: each does its \<open>setStatus\<close>, oldest first. It happens
  while \<open>init\<close> waits for the user's workflow, or at the latest when the next transaction
  is awaited.
\<close>

fun commit_one :: "StartedTransaction \<Rightarrow> Engine \<Rightarrow> Engine" where
  "commit_one (SetStatusTransaction account inst st) s = snd (setStatus account inst st s)"

fun written_status :: "StartedTransaction \<Rightarrow> InstanceStatus" where
  "written_status (SetStatusTransaction account inst st) = st"

definition commit_started :: "Engine \<Rightarrow> Engine" where
  "commit_started s = (fold commit_one (started s) s)\<lparr>started := []\<rparr>"

text \<open>
  \<open>await this.ctx.storage.transaction(fn)\<close>: \<open>fn\<close> runs after every transaction
  started before it, and commits. This is the ordering the source counts on at its two
  closing transactions ("to guarentee ordering with running setstatus call").
\<close>

definition transaction :: "(Engine \<Rightarrow> 'a \<times> Engine) \<Rightarrow> Engine \<Rightarrow> 'a \<times> Engine" where
  "transaction fn s = fn (commit_started s)"

text \<open>\<open>void f()\<close> for an \<open>f\<close> that is one transaction: it is started and left.\<close>

definition start_unawaited :: "StartedTransaction \<Rightarrow> Engine \<Rightarrow> Engine" where
  "start_unawaited txn s = s\<lparr>started := started s @ [txn]\<rparr>"

subsection \<open>\<open>init\<close>\<close>

text \<open>
  The terminal statuses, as the list \<open>init\<close> tests its status against with
  \<open>includes\<close>.
\<close>

definition terminal_statuses :: "InstanceStatus list" where
  "terminal_statuses = [Errored, Terminated, Complete]"

text \<open>The \<open>catch\<close> block's \<open>error\<close>: an \<open>Error\<close> gives its message and name, anything
  else becomes the message of an error named \<open>Error\<close>.\<close>

fun normalize_error :: "jsval \<Rightarrow> jsval" where
  "normalize_error (JError nm msg) = JObject [(''message'', JStr msg), (''name'', JStr nm)]"
| "normalize_error err = JObject [(''name'', JStr ''Error''), (''message'', err)]"

fun object_keys :: "jsval \<Rightarrow> string list option" where
  "object_keys (JObject props) = Some (map fst props)"
| "object_keys _ = None"

text \<open>The value \<open>init\<close> returns: \<open>{id: instance.name}\<close>, or \<open>undefined\<close> (\<open>None\<close>) from
  a bare \<open>return\<close>.\<close>

record InitResult =
  id :: string

text \<open>
  \<open>init\<close> up to its \<open>await target.run(...)\<close>: either it has returned (\<open>Returned\<close>, with
  the value), or it is about to invoke the user's workflow and wait for it (\<open>Awaiting\<close>).
\<close>

datatype Activation = Returned "InitResult option" | Awaiting

text \<open>Lines 228 to 242: construct the queue once, drain what is due, arm the alarm.\<close>

definition init_timers ::
  "int \<Rightarrow> int \<Rightarrow> DatabaseWorkflow \<Rightarrow> DatabaseVersion \<Rightarrow> DatabaseInstance \<Rightarrow> WorkflowEvent
     \<Rightarrow> Engine \<Rightarrow> Engine" where
  "init_timers clock account wflow ver inst ev s =
     (let s1 = (if priorityQueue s = None
                then s\<lparr>priorityQueue :=
                         Some \<lparr>instanceMetadata =
                                 \<lparr>InstanceMetadata.accountId = account, workflow = wflow, version = ver,
                                  instance = inst, InstanceMetadata.event = ev\<rparr>\<rparr>\<rparr>
                else s);
          s2 = s1\<lparr>ctx := snd (popPastEntries clock (ctx s1))\<rparr>
      in s2\<lparr>ctx := handleNextAlarm (ctx s2)\<rparr>)"

text \<open>
  \<open>workflowRunningHandler\<close>: a transaction whose body sets the status to \<open>Running\<close>.
  \<open>init\<close> calls it with \<open>void\<close> and never awaits it, so the status is still what it
  was when the user's workflow is invoked; \<open>Running\<close> is written when the transaction
  runs.
\<close>

definition workflowRunningHandler :: "int \<Rightarrow> DatabaseInstance \<Rightarrow> StartedTransaction" where
  "workflowRunningHandler account inst =
     SetStatusTransaction account (DatabaseInstance.name inst) Running"

text \<open>Lines 244 to 340: the guard, the terminal check, first activation, the start of
  the run.\<close>

definition init_start ::
  "int \<Rightarrow> DatabaseWorkflow \<Rightarrow> DatabaseVersion \<Rightarrow> DatabaseInstance \<Rightarrow> WorkflowEvent
     \<Rightarrow> Engine \<Rightarrow> Activation \<times> Engine" where
  "init_start account wflow ver inst ev s =
     (if isRunning s then (Returned None, s)
      else
        let s1 = s\<lparr>Engine.accountId := Some account,
                   instanceId := Some (DatabaseInstance.name inst),
                   workflowName := Some (DatabaseWorkflow.name wflow)\<rparr>;
            (st, s2) = getStatus account (DatabaseInstance.name inst) s1
        in if st \<in> set terminal_statuses then (Returned None, s2)
           else
             let s3 =
                   (if storage_get INSTANCE_METADATA (ctx s2) = None
                    then
                      let instance_metadata =
                            \<lparr>InstanceMetadata.accountId = account, workflow = wflow, version = ver,
                             instance = inst, InstanceMetadata.event = ev\<rparr>;
                          s2a = s2\<lparr>ctx := storage_put INSTANCE_METADATA instance_metadata (ctx s2)\<rparr>;
                          s2b = writeLog WORKFLOW_QUEUED None None
                                  [(''params'', payload ev),
                                   (''versionId'', JStr (DatabaseVersion.id ver)),
                                   (''trigger'',
                                      JObject [(''source'', JEnum ''InstanceTrigger'' ''API'')])]
                                  s2a
                      in writeLog WORKFLOW_START None None [] s2b
                    else s2);
                 s4 = s3\<lparr>isRunning := True\<rparr>
             in (Awaiting, start_unawaited (workflowRunningHandler account inst) s4))"

definition init_activate ::
  "int \<Rightarrow> int \<Rightarrow> DatabaseWorkflow \<Rightarrow> DatabaseVersion \<Rightarrow> DatabaseInstance \<Rightarrow> WorkflowEvent
     \<Rightarrow> Engine \<Rightarrow> Activation \<times> Engine" where
  "init_activate clock account wflow ver inst ev s =
     init_start account wflow ver inst ev (init_timers clock account wflow ver inst ev s)"

text \<open>The \<open>try\<close> block: a throw of \<open>run\<close> leaves it at once; a result is logged and the
  status becomes \<open>Complete\<close> in a transaction.\<close>

definition init_try ::
  "Env \<Rightarrow> int \<Rightarrow> DatabaseInstance \<Rightarrow> WorkflowEvent \<Rightarrow> Engine \<Rightarrow> (jsval + unit) \<times> Engine" where
  "init_try env account inst ev s =
     (case run (USER_WORKFLOW env) ev (Context s) of
        Inl err \<Rightarrow> (Inl err, s)
      | Inr result \<Rightarrow>
          let s1 = writeLog WORKFLOW_SUCCESS None None [(''result'', result)] s;
              s2 = snd (transaction
                          (setStatus account (DatabaseInstance.name inst) Complete) s1)
          in (Inr (), s2\<lparr>isRunning := False\<rparr>))"

text \<open>The \<open>catch\<close> block.\<close>

definition init_catch ::
  "int \<Rightarrow> DatabaseInstance \<Rightarrow> jsval \<Rightarrow> Engine \<Rightarrow> (jsval + unit) \<times> Engine" where
  "init_catch account inst err s =
     (let error = normalize_error err;
          s1 = writeLog WORKFLOW_FAILURE None None [(''error'', error)] s;
          s2 = snd (transaction
                      (setStatus account (DatabaseInstance.name inst) Errored) s1)
      in (Inr (), s2\<lparr>isRunning := False\<rparr>))"

text \<open>\<open>try { body } catch (err) { handler }\<close>: the handler gets what the body threw.\<close>

definition try_catch ::
  "(Engine \<Rightarrow> (jsval + 'a) \<times> Engine) \<Rightarrow> (jsval \<Rightarrow> Engine \<Rightarrow> (jsval + 'a) \<times> Engine)
     \<Rightarrow> Engine \<Rightarrow> (jsval + 'a) \<times> Engine" where
  "try_catch body handler s =
     (case body s of
        (Inl err, s') \<Rightarrow> handler err s'
      | (Inr v, s') \<Rightarrow> (Inr v, s'))"

text \<open>Lines 341 to 393: the \<open>try\<close>/\<open>catch\<close> statement and the final \<open>return\<close>. A throw
  that escapes the statement leaves \<open>init\<close>.\<close>

definition init_resume ::
  "Env \<Rightarrow> int \<Rightarrow> DatabaseInstance \<Rightarrow> WorkflowEvent \<Rightarrow> Engine
     \<Rightarrow> (jsval + InitResult option) \<times> Engine" where
  "init_resume env account inst ev s =
     (case try_catch (init_try env account inst ev) (init_catch account inst) s of
        (Inl err, s') \<Rightarrow> (Inl err, s')
      | (Inr _, s') \<Rightarrow> (Inr (Some \<lparr>InitResult.id = DatabaseInstance.name inst\<rparr>), s'))"

definition init ::
  "Env \<Rightarrow> int \<Rightarrow> int \<Rightarrow> DatabaseWorkflow \<Rightarrow> DatabaseVersion \<Rightarrow> DatabaseInstance
     \<Rightarrow> WorkflowEvent \<Rightarrow> Engine \<Rightarrow> (jsval + InitResult option) \<times> Engine" where
  "init env clock account wflow ver inst ev s =
     (case init_activate clock account wflow ver inst ev s of
        (Returned r, s') \<Rightarrow> (Inr r, s')
      | (Awaiting, s') \<Rightarrow> init_resume env account inst ev s')"

subsection \<open>Sequences of invocations\<close>

text \<open>The six remotely invocable operations; \<open>Init\<close> carries the clock value its
  invocation reads.\<close>

datatype Operation =
    Init int int DatabaseWorkflow DatabaseVersion DatabaseInstance WorkflowEvent
  | GetStatus int string
  | SetStatus int string InstanceStatus
  | ReadLogs
  | Abort string
  | UserTriggeredTerminate

fun invoke :: "Env \<Rightarrow> Operation \<Rightarrow> Engine \<Rightarrow> Engine" where
  "invoke env (Init clock account wflow ver inst ev) s =
     snd (init env clock account wflow ver inst ev s)"
| "invoke env (GetStatus account inst) s = snd (getStatus account inst s)"
| "invoke env (SetStatus account inst st) s = snd (setStatus account inst st s)"
| "invoke env ReadLogs s = snd (readLogs s)"
| "invoke env (Abort reason) s = snd (abort reason s)"
| "invoke env UserTriggeredTerminate s = snd (userTriggeredTerminate s)"

fun invoke_all :: "Env \<Rightarrow> Operation list \<Rightarrow> Engine \<Rightarrow> Engine" where
  "invoke_all env [] s = s"
| "invoke_all env (op # ops) s = invoke_all env ops (invoke env op s)"

fun is_SetStatus :: "Operation \<Rightarrow> bool" where
  "is_SetStatus (SetStatus account inst st) = True"
| "is_SetStatus _ = False"

text \<open>
  The state machine \<open>Queued -> Running -> {Complete, Errored, Terminated}\<close>: one
  transition, and "is at or ahead of" by the position in it.
\<close>

fun status_step :: "InstanceStatus \<Rightarrow> InstanceStatus \<Rightarrow> bool" where
  "status_step Queued b = (b = Running)"
| "status_step Running b = (b = Complete \<or> b = Errored \<or> b = Terminated)"
| "status_step _ b = False"

fun status_rank :: "InstanceStatus \<Rightarrow> nat" where
  "status_rank Queued = 0"
| "status_rank Running = 1"
| "status_rank _ = 2"

definition moves_forward :: "InstanceStatus \<Rightarrow> InstanceStatus \<Rightarrow> bool" where
  "moves_forward a b = (a = b \<or> status_rank a < status_rank b)"

text \<open>
  Everything that can touch the table: the public operations, a restart of the object
  (the constructor again, on the state that persisted), the queue's \<open>enqueue\<close>, and any
  other \<open>INSERT\<close> or \<open>DELETE\<close> statement, which is what a cancellation comes down to
  whichever way it is recorded.
\<close>

datatype Activity =
    Public Operation
  | Restart int
  | Enqueue int int string int
  | SqlInsert int int int int string
  | SqlDelete "ScheduledEntry \<Rightarrow> bool"

fun perform :: "Env \<Rightarrow> Activity \<Rightarrow> Engine \<Rightarrow> Engine" where
  "perform env (Public op) s = invoke env op s"
| "perform env (Restart engine_timeout) s = new_Engine engine_timeout (ctx s)"
| "perform env (Enqueue clock ty h target_ts) s =
     s\<lparr>ctx := enqueue clock ty h target_ts (ctx s)\<rparr>"
| "perform env (SqlInsert clock target_ts act ty h) s =
     (case sql_insert clock target_ts act ty h (priority_queue (ctx s)) of
        Inl _ \<Rightarrow> s
      | Inr tbl \<Rightarrow> s\<lparr>ctx := (ctx s)\<lparr>priority_queue := tbl\<rparr>\<rparr>)"
| "perform env (SqlDelete doomed) s =
     s\<lparr>ctx := (ctx s)\<lparr>priority_queue := sql_delete doomed (priority_queue (ctx s))\<rparr>\<rparr>"

fun perform_all :: "Env \<Rightarrow> Activity list \<Rightarrow> Engine \<Rightarrow> Engine" where
  "perform_all env [] s = s"
| "perform_all env (a # as) s = perform_all env as (perform env a s)"

definition unique_keys :: "ScheduledEntry list \<Rightarrow> bool" where
  "unique_keys tbl = distinct (map row_key tbl)"

subsection \<open>Concrete engines and arguments\<close>

definition workflow0 :: DatabaseWorkflow where
  "workflow0 =
     \<lparr>DatabaseWorkflow.name = ''orders'', id = ''wf-1'', created_on = ''2024-01-01'',
      modified_on = ''2024-01-01'', script_name = ''orders-script'', class_name = None,
      triggered_on = None\<rparr>"

definition version0 :: DatabaseVersion where
  "version0 =
     \<lparr>DatabaseVersion.id = ''v-1'', class_name = ''OrderFlow'', created_on = ''2024-01-01'',
      modified_on = ''2024-01-01'', workflow_id = ''wf-1'', mutable_pipeline_id = ''p-1''\<rparr>"

definition instance0 :: DatabaseInstance where
  "instance0 =
     \<lparr>DatabaseInstance.name = ''run-1'', created_on = ''2024-01-02'',
      modified_on = ''2024-01-02'', workflow_id = ''wf-1'', version_id = ''v-1'',
      status = Queued, started_on = None, ended_on = None\<rparr>"

definition event0 :: WorkflowEvent where
  "event0 = \<lparr>payload = JObject [(''order'', JNum 42)]\<rparr>"

definition env_resolves :: Env where
  "env_resolves = \<lparr>USER_WORKFLOW = \<lparr>run = (\<lambda>ev c. Inr (JStr ''shipped''))\<rparr>\<rparr>"

definition env_throws :: Env where
  "env_throws = \<lparr>USER_WORKFLOW = \<lparr>run = (\<lambda>ev c. Inl (JError ''TypeError'' ''boom''))\<rparr>\<rparr>"

definition env_throws_text :: Env where
  "env_throws_text = \<lparr>USER_WORKFLOW = \<lparr>run = (\<lambda>ev c. Inl (JStr ''disk full''))\<rparr>\<rparr>"

definition fresh_state :: DurableObjectState where
  "fresh_state = \<lparr>kv = Map.empty, puts = [], priority_queue = [], alarm = None\<rparr>"

definition engine0 :: Engine where
  "engine0 = new_Engine 30000 fresh_state"

definition due_row :: ScheduledEntry where
  "due_row =
     \<lparr>ScheduledEntry.id = 1, created_on = 5, target_timestamp = 10, action = 1,
      entryType = 0, hash = ''sleep-a''\<rparr>"

definition engine_due :: Engine where
  "engine_due = engine0\<lparr>ctx := fresh_state\<lparr>priority_queue := [due_row], alarm := Some 10\<rparr>\<rparr>"

definition engine_running :: Engine where
  "engine_running = engine0\<lparr>Engine.status := Running, isRunning := True\<rparr>"

definition engine_complete :: Engine where
  "engine_complete = engine0\<lparr>Engine.status := Complete\<rparr>"

subsection \<open>Log entries named\<close>

text \<open>The entries \<open>init\<close> writes, all with \<open>group\<close> and \<open>target\<close> \<open>null\<close>; the first
  activation writes \<open>WORKFLOW_QUEUED\<close> and then \<open>WORKFLOW_START\<close>.\<close>

definition log_entry :: "InstanceEvent \<Rightarrow> (string \<times> jsval) list \<Rightarrow> LogEntry" where
  "log_entry kind md = \<lparr>LogEntry.event = kind, group = None, target = None, metadata = md\<rparr>"

definition first_activation_entries :: "DatabaseVersion \<Rightarrow> WorkflowEvent \<Rightarrow> LogEntry list" where
  "first_activation_entries ver ev =
     [log_entry WORKFLOW_QUEUED
        [(''params'', payload ev), (''versionId'', JStr (DatabaseVersion.id ver)),
         (''trigger'', JObject [(''source'', JEnum ''InstanceTrigger'' ''API'')])],
      log_entry WORKFLOW_START []]"

text \<open>The entries of a log that belong to a first activation.\<close>

definition activation_entries :: "LogEntry list \<Rightarrow> LogEntry list" where
  "activation_entries es =
     filter (\<lambda>e. LogEntry.event e = WORKFLOW_QUEUED \<or> LogEntry.event e = WORKFLOW_START) es"

section \<open>Properties\<close>

subsection \<open>Started transactions\<close>

lemma fold_commit_one:
  "fold commit_one txns s =
     s\<lparr>Engine.status := fold (\<lambda>t _. written_status t) txns (Engine.status s)\<rparr>"
proof (induction txns arbitrary: s)
  case Nil
  show ?case by simp
next
  case (Cons t txns)
  show ?case
    by (cases t) (simp add: Cons.IH setStatus_def)
qed

lemma commit_started_eq:
  "commit_started s =
     s\<lparr>Engine.status := fold (\<lambda>t _. written_status t) (started s) (Engine.status s),
       started := []\<rparr>"
  by (simp add: commit_started_def fold_commit_one)


lemma transaction_setStatus:
  "snd (transaction (setStatus account i st) s) = s\<lparr>Engine.status := st, started := []\<rparr>"
  by (simp add: transaction_def setStatus_def commit_started_eq)

subsection \<open>The timer prologue\<close>

lemma init_timers_frame:
  "logs (init_timers clock account wflow ver inst ev s) = logs s"
  "Engine.status (init_timers clock account wflow ver inst ev s) = Engine.status s"
  "isRunning (init_timers clock account wflow ver inst ev s) = isRunning s"
  "kv (ctx (init_timers clock account wflow ver inst ev s)) = kv (ctx s)"
  "puts (ctx (init_timers clock account wflow ver inst ev s)) = puts (ctx s)"
  "started (init_timers clock account wflow ver inst ev s) = started s"
  by (simp_all add: init_timers_def Let_def popPastEntries_def handleNextAlarm_def)

lemma init_timers_queue:
  "priority_queue (ctx (init_timers clock account wflow ver inst ev s)) =
     filter (\<lambda>r. \<not> target_timestamp r \<le> clock) (priority_queue (ctx s))"
  "alarm (ctx (init_timers clock account wflow ver inst ev s)) =
     next_wakeup (filter (\<lambda>r. \<not> target_timestamp r \<le> clock) (priority_queue (ctx s)))"
  by (simp_all add: init_timers_def Let_def popPastEntries_def handleNextAlarm_def sql_delete_def is_due_def)

lemma init_start_guard:
  "isRunning s \<Longrightarrow> init_start account wflow ver inst ev s = (Returned None, s)"
  by (simp add: init_start_def)

lemma init_start_terminal:
  "\<not> isRunning s \<Longrightarrow> Engine.status s \<in> {Errored, Terminated, Complete} \<Longrightarrow>
   init_start account wflow ver inst ev s =
     (Returned None, s\<lparr>Engine.accountId := Some account,
                   instanceId := Some (DatabaseInstance.name inst),
                   workflowName := Some (DatabaseWorkflow.name wflow)\<rparr>)"
  by (auto simp add: init_start_def getStatus_def terminal_statuses_def Let_def)

lemma init_start_ctx_queue:
  "priority_queue (ctx (snd (init_start account wflow ver inst ev s))) = priority_queue (ctx s)"
  "alarm (ctx (snd (init_start account wflow ver inst ev s))) = alarm (ctx s)"
  by (simp_all add: init_start_def getStatus_def Let_def storage_put_def writeLog_def
      start_unawaited_def)

lemma init_start_awaiting:
  "\<not> isRunning s \<Longrightarrow> Engine.status s \<notin> {Errored, Terminated, Complete} \<Longrightarrow>
   fst (init_start account wflow ver inst ev s) = Awaiting \<and>
   Engine.status (snd (init_start account wflow ver inst ev s)) = Engine.status s \<and>
   isRunning (snd (init_start account wflow ver inst ev s)) \<and>
   started (snd (init_start account wflow ver inst ev s)) =
     started s @ [SetStatusTransaction account (DatabaseInstance.name inst) Running]"
  by (simp add: init_start_def getStatus_def terminal_statuses_def Let_def
      workflowRunningHandler_def start_unawaited_def writeLog_def)

subsection \<open>The two halves of \<open>init\<close>\<close>

lemma init_start_first_activation:
  assumes "\<not> isRunning s" "Engine.status s \<notin> {Errored, Terminated, Complete}"
  shows "logs (snd (init_start account wflow ver inst ev s)) =
     (if kv (ctx s) INSTANCE_METADATA = None
      then logs s @
        [\<lparr>LogEntry.event = WORKFLOW_QUEUED, group = None, target = None,
          metadata = [(''params'', payload ev),
                      (''versionId'', JStr (DatabaseVersion.id ver)),
                      (''trigger'', JObject [(''source'', JEnum ''InstanceTrigger'' ''API'')])]\<rparr>,
         \<lparr>LogEntry.event = WORKFLOW_START, group = None, target = None, metadata = []\<rparr>]
      else logs s)"
    and "puts (ctx (snd (init_start account wflow ver inst ev s))) =
     (if kv (ctx s) INSTANCE_METADATA = None
      then puts (ctx s) @
        [(INSTANCE_METADATA,
          \<lparr>InstanceMetadata.accountId = account, workflow = wflow, version = ver,
           instance = inst, InstanceMetadata.event = ev\<rparr>)]
      else puts (ctx s))"
  using assms
  by (simp_all add: init_start_def getStatus_def terminal_statuses_def Let_def
      start_unawaited_def writeLog_def storage_get_def storage_put_def)

lemma init_resume_resolved:
  assumes "run (USER_WORKFLOW env) ev (Context s) = Inr V"
  shows "init_resume env account inst ev s =
    (Inr (Some \<lparr>InitResult.id = DatabaseInstance.name inst\<rparr>),
     s\<lparr>logs := logs s @ [\<lparr>LogEntry.event = WORKFLOW_SUCCESS, group = None, target = None,
                            metadata = [(''result'', V)]\<rparr>],
       Engine.status := Complete, isRunning := False, started := []\<rparr>)"
  using assms
  by (simp add: init_resume_def try_catch_def init_try_def Let_def transaction_setStatus
      writeLog_def)

lemma init_resume_thrown:
  assumes "run (USER_WORKFLOW env) ev (Context s) = Inl E"
  shows "init_resume env account inst ev s =
    (Inr (Some \<lparr>InitResult.id = DatabaseInstance.name inst\<rparr>),
     s\<lparr>logs := logs s @ [\<lparr>LogEntry.event = WORKFLOW_FAILURE, group = None, target = None,
                            metadata = [(''error'', normalize_error E)]\<rparr>],
       Engine.status := Errored, isRunning := False, started := []\<rparr>)"
  using assms
  by (simp add: init_resume_def try_catch_def init_try_def init_catch_def Let_def
      transaction_setStatus writeLog_def)

lemma init_awaiting:
  assumes "\<not> isRunning s" "Engine.status s \<notin> {Errored, Terminated, Complete}"
  shows "init env clock account wflow ver inst ev s =
     init_resume env account inst ev (snd (init_activate clock account wflow ver inst ev s))"
proof -
  let ?t = "init_timers clock account wflow ver inst ev s"
  have "fst (init_start account wflow ver inst ev ?t) = Awaiting"
    using assms init_start_awaiting [of ?t] by (simp add: init_timers_frame)
  then show ?thesis
    by (cases "init_start account wflow ver inst ev ?t")
       (simp add: init_def init_activate_def)
qed

lemma init_early:
  assumes "isRunning s \<or> Engine.status s \<in> {Errored, Terminated, Complete}"
  shows "fst (init env clock account wflow ver inst ev s) = Inr None"
    and "logs (snd (init env clock account wflow ver inst ev s)) = logs s"
    and "Engine.status (snd (init env clock account wflow ver inst ev s)) = Engine.status s"
    and "isRunning (snd (init env clock account wflow ver inst ev s)) = isRunning s"
    and "puts (ctx (snd (init env clock account wflow ver inst ev s))) = puts (ctx s)"
    and "kv (ctx (snd (init env clock account wflow ver inst ev s))) = kv (ctx s)"
proof -
  let ?t = "init_timers clock account wflow ver inst ev s"
  have "init_start account wflow ver inst ev ?t = (Returned None, ?t) \<or>
    init_start account wflow ver inst ev ?t = (Returned None, ?t\<lparr>Engine.accountId := Some account,
                   instanceId := Some (DatabaseInstance.name inst),
                   workflowName := Some (DatabaseWorkflow.name wflow)\<rparr>)"
    using assms init_start_guard [of ?t] init_start_terminal [of ?t]
    by (cases "isRunning s") (auto simp add: init_timers_frame)
  then show "fst (init env clock account wflow ver inst ev s) = Inr None"
    and "logs (snd (init env clock account wflow ver inst ev s)) = logs s"
    and "Engine.status (snd (init env clock account wflow ver inst ev s)) = Engine.status s"
    and "isRunning (snd (init env clock account wflow ver inst ev s)) = isRunning s"
    and "puts (ctx (snd (init env clock account wflow ver inst ev s))) = puts (ctx s)"
    and "kv (ctx (snd (init env clock account wflow ver inst ev s))) = kv (ctx s)"
    by (auto simp add: init_def init_activate_def init_timers_frame)
qed

lemma init_activate_logs:
  assumes "\<not> isRunning s" "Engine.status s \<notin> {Errored, Terminated, Complete}"
  shows "logs (snd (init_activate clock account wflow ver inst ev s)) =
     logs s @ (if kv (ctx s) INSTANCE_METADATA = None then first_activation_entries ver ev else [])"
  using assms
    init_start_first_activation(1) [of "init_timers clock account wflow ver inst ev s" account wflow ver inst ev]
  by (simp add: init_activate_def init_timers_frame first_activation_entries_def log_entry_def)

lemma init_activate_puts:
  assumes "\<not> isRunning s" "Engine.status s \<notin> {Errored, Terminated, Complete}"
  shows "puts (ctx (snd (init_activate clock account wflow ver inst ev s))) =
     puts (ctx s) @ (if kv (ctx s) INSTANCE_METADATA = None
       then [(INSTANCE_METADATA,
          \<lparr>InstanceMetadata.accountId = account, workflow = wflow, version = ver,
           instance = inst, InstanceMetadata.event = ev\<rparr>)] else [])"
  using assms
    init_start_first_activation(2) [of "init_timers clock account wflow ver inst ev s" account wflow ver inst ev]
  by (simp add: init_activate_def init_timers_frame)

lemma init_activate_status:
  assumes "\<not> isRunning s" "Engine.status s \<notin> {Errored, Terminated, Complete}"
  shows "Engine.status (snd (init_activate clock account wflow ver inst ev s)) = Engine.status s"
    and "isRunning (snd (init_activate clock account wflow ver inst ev s))"
    and "fst (init_activate clock account wflow ver inst ev s) = Awaiting"
    and "started (snd (init_activate clock account wflow ver inst ev s)) =
           started s @ [SetStatusTransaction account (DatabaseInstance.name inst) Running]"
  using assms init_start_awaiting [of "init_timers clock account wflow ver inst ev s" account wflow ver inst ev]
  by (simp_all add: init_activate_def init_timers_frame)

subsection \<open>What \<open>init\<close> does to the log, the storage and the table\<close>

lemma normalize_error_keys:
  "\<exists>ks. object_keys (normalize_error E) = Some ks \<and> set ks = {''name'', ''message''} \<and> distinct ks"
  by (cases E) auto

lemma init_resume_shape:
  "\<exists>e st. LogEntry.event e \<in> {WORKFLOW_SUCCESS, WORKFLOW_FAILURE} \<and> st \<in> {Complete, Errored} \<and>
     init_resume env account inst ev t =
       (Inr (Some \<lparr>InitResult.id = DatabaseInstance.name inst\<rparr>),
        t\<lparr>logs := logs t @ [e], Engine.status := st, isRunning := False, started := []\<rparr>)"
proof (cases "run (USER_WORKFLOW env) ev (Context t)")
  case (Inl E)
  show ?thesis
    unfolding init_resume_thrown [OF Inl]
    by (intro exI [of _ "log_entry WORKFLOW_FAILURE [(''error'', normalize_error E)]"]
        exI [of _ Errored]) (simp add: log_entry_def)
next
  case (Inr V)
  show ?thesis
    unfolding init_resume_resolved [OF Inr]
    by (intro exI [of _ "log_entry WORKFLOW_SUCCESS [(''result'', V)]"]
        exI [of _ Complete]) (simp add: log_entry_def)
qed

lemma init_resume_ctx: "ctx (snd (init_resume env account inst ev t)) = ctx t"
  using init_resume_shape [of env account inst ev t] by auto

lemma init_activate_queue:
  "priority_queue (ctx (snd (init_activate clock account wflow ver inst ev s))) =
     filter (\<lambda>r. \<not> target_timestamp r \<le> clock) (priority_queue (ctx s))"
  "alarm (ctx (snd (init_activate clock account wflow ver inst ev s))) =
     next_wakeup (filter (\<lambda>r. \<not> target_timestamp r \<le> clock) (priority_queue (ctx s)))"
  by (simp_all add: init_activate_def init_start_ctx_queue init_timers_queue)

lemma init_ctx:
  "ctx (snd (init env clock account wflow ver inst ev s)) =
   ctx (snd (init_activate clock account wflow ver inst ev s))"
  by (cases "init_activate clock account wflow ver inst ev s")
     (simp add: init_def init_resume_ctx split: Activation.splits)

lemma init_queue:
  "priority_queue (ctx (snd (init env clock account wflow ver inst ev s))) =
     filter (\<lambda>r. \<not> target_timestamp r \<le> clock) (priority_queue (ctx s))"
  "alarm (ctx (snd (init env clock account wflow ver inst ev s))) =
     next_wakeup (filter (\<lambda>r. \<not> target_timestamp r \<le> clock) (priority_queue (ctx s)))"
  by (simp_all add: init_ctx init_activate_queue)

lemma sql_insert_unique:
  "unique_keys tbl \<Longrightarrow> sql_insert clock target_ts act ty h tbl = Inr tbl' \<Longrightarrow> unique_keys tbl'"
  by (auto simp add: sql_insert_def unique_keys_def row_key_def split: if_splits)

lemma sql_delete_unique: "unique_keys tbl \<Longrightarrow> unique_keys (sql_delete doomed tbl)"
  by (simp add: unique_keys_def sql_delete_def distinct_map_filter)

lemma filter_unique: "unique_keys tbl \<Longrightarrow> unique_keys (filter P tbl)"
  by (simp add: unique_keys_def distinct_map_filter)

lemma invoke_unique:
  "unique_keys (priority_queue (ctx s)) \<Longrightarrow> unique_keys (priority_queue (ctx (invoke env op s)))"
  by (cases op)
     (simp_all add: init_queue filter_unique getStatus_def setStatus_def readLogs_def
        abort_def userTriggeredTerminate_def)

lemma perform_unique:
  "unique_keys (priority_queue (ctx s)) \<Longrightarrow> unique_keys (priority_queue (ctx (perform env a s)))"
proof (cases a)
  case (Public op)
  then show "unique_keys (priority_queue (ctx s)) \<Longrightarrow> ?thesis" by (simp add: invoke_unique)
next
  case (Restart t)
  then show "unique_keys (priority_queue (ctx s)) \<Longrightarrow> ?thesis" by (simp add: new_Engine_def)
next
  case (Enqueue clock ty h target_ts)
  then show "unique_keys (priority_queue (ctx s)) \<Longrightarrow> ?thesis"
    by (auto simp add: enqueue_def split: sum.splits dest: sql_insert_unique)
next
  case (SqlInsert clock target_ts act ty h)
  then show "unique_keys (priority_queue (ctx s)) \<Longrightarrow> ?thesis"
    by (auto split: sum.splits dest: sql_insert_unique)
next
  case (SqlDelete doomed)
  then show "unique_keys (priority_queue (ctx s)) \<Longrightarrow> ?thesis" by (simp add: sql_delete_unique)
qed

lemma perform_all_unique:
  "unique_keys (priority_queue (ctx s)) \<Longrightarrow>
   unique_keys (priority_queue (ctx (perform_all env acts s)))"
  by (induction acts arbitrary: s) (simp_all add: perform_unique)

lemma enqueue_twice:
  "enqueue clock' ty h target_ts' (enqueue clock ty h target_ts c) = enqueue clock ty h target_ts c"
  by (auto simp add: enqueue_def sql_insert_def row_key_def split: sum.splits if_splits)

lemma activation_entries_first [simp]:
  "activation_entries (first_activation_entries ver ev) = first_activation_entries ver ev"
  by (simp add: activation_entries_def first_activation_entries_def log_entry_def)

lemma init_first_run:
  assumes "\<not> isRunning s" "Engine.status s \<notin> {Errored, Terminated, Complete}"
  shows "\<exists>e st. LogEntry.event e \<in> {WORKFLOW_SUCCESS, WORKFLOW_FAILURE} \<and> st \<in> {Complete, Errored} \<and>
     snd (init env clock account wflow ver inst ev s) =
       (snd (init_activate clock account wflow ver inst ev s))
         \<lparr>logs := logs (snd (init_activate clock account wflow ver inst ev s)) @ [e],
          Engine.status := st, isRunning := False, started := []\<rparr>"
proof -
  let ?a = "snd (init_activate clock account wflow ver inst ev s)"
  obtain e st where "LogEntry.event e \<in> {WORKFLOW_SUCCESS, WORKFLOW_FAILURE}"
    and "st \<in> {Complete, Errored}"
    and "init_resume env account inst ev ?a =
       (Inr (Some \<lparr>InitResult.id = DatabaseInstance.name inst\<rparr>),
        ?a\<lparr>logs := logs ?a @ [e], Engine.status := st, isRunning := False, started := []\<rparr>)"
    using init_resume_shape [of env account inst ev ?a] by blast
  then show ?thesis
    unfolding init_awaiting [OF assms]
    by (intro exI [of _ e] exI [of _ st]) simp
qed

lemma init_first_activation_effect:
  assumes "\<not> isRunning s" "Engine.status s \<notin> {Errored, Terminated, Complete}"
    "kv (ctx s) INSTANCE_METADATA = None"
  shows "puts (ctx (snd (init env clock account wflow ver inst ev s))) =
           puts (ctx s) @
           [(INSTANCE_METADATA,
             \<lparr>InstanceMetadata.accountId = account, workflow = wflow, version = ver,
              instance = inst, InstanceMetadata.event = ev\<rparr>)]"
    and "activation_entries (drop (length (logs s)) (logs (snd (init env clock account wflow ver inst ev s))))
           = first_activation_entries ver ev"
    and "Engine.status (snd (init env clock account wflow ver inst ev s)) \<in> {Errored, Terminated, Complete}"
proof -
  let ?a = "snd (init_activate clock account wflow ver inst ev s)"
  obtain e st where e: "LogEntry.event e \<in> {WORKFLOW_SUCCESS, WORKFLOW_FAILURE}"
    and st: "st \<in> {Complete, Errored}"
    and fin: "snd (init env clock account wflow ver inst ev s) =
       ?a\<lparr>logs := logs ?a @ [e], Engine.status := st, isRunning := False, started := []\<rparr>"
    using init_first_run [OF assms(1,2)] by blast
  have la: "logs ?a = logs s @ first_activation_entries ver ev"
    using init_activate_logs [OF assms(1,2)] assms(3) by simp
  have pa: "puts (ctx ?a) = puts (ctx s) @
           [(INSTANCE_METADATA,
             \<lparr>InstanceMetadata.accountId = account, workflow = wflow, version = ver,
              instance = inst, InstanceMetadata.event = ev\<rparr>)]"
    using init_activate_puts [OF assms(1,2)] assms(3) by simp
  show "puts (ctx (snd (init env clock account wflow ver inst ev s))) =
           puts (ctx s) @
           [(INSTANCE_METADATA,
             \<lparr>InstanceMetadata.accountId = account, workflow = wflow, version = ver,
              instance = inst, InstanceMetadata.event = ev\<rparr>)]"
    by (simp add: fin pa)
  have "activation_entries [e] = []"
    using e by (auto simp add: activation_entries_def)
  then show "activation_entries (drop (length (logs s)) (logs (snd (init env clock account wflow ver inst ev s))))
           = first_activation_entries ver ev"
    using activation_entries_first [of ver ev]
    by (simp add: fin la activation_entries_def)
  show "Engine.status (snd (init env clock account wflow ver inst ev s)) \<in> {Errored, Terminated, Complete}"
    using st by (auto simp add: fin)
qed

lemma moves_forward_refl: "moves_forward a a"
  by (simp add: moves_forward_def)

lemma moves_forward_trans: "moves_forward a b \<Longrightarrow> moves_forward b c \<Longrightarrow> moves_forward a c"
  by (auto simp add: moves_forward_def)

lemma moves_forward_terminal:
  "moves_forward a b \<Longrightarrow> a \<in> {Complete, Errored, Terminated} \<Longrightarrow> b = a"
  by (cases b) (auto simp add: moves_forward_def)

lemma moves_forward_is_reachability: "moves_forward a b \<longleftrightarrow> status_step\<^sup>*\<^sup>* a b"
proof
  assume "moves_forward a b"
  then consider "a = b" | "a = Queued" "b = Running" | "a = Queued" "status_rank b = 2"
    | "a = Running" "status_rank b = 2"
    by (cases a; cases b) (auto simp add: moves_forward_def)
  then show "status_step\<^sup>*\<^sup>* a b"
  proof cases
    case 1 then show ?thesis by simp
  next
    case 2 then show ?thesis by (simp add: r_into_rtranclp)
  next
    case 3
    then have "status_step Queued Running" "status_step Running b"
      by (cases b; simp)+
    then show ?thesis using 3(1) by (metis rtranclp.rtrancl_into_rtrancl r_into_rtranclp)
  next
    case 4
    then have "status_step Running b" by (cases b; simp)
    then show ?thesis using 4(1) by (simp add: r_into_rtranclp)
  qed
next
  assume "status_step\<^sup>*\<^sup>* a b"
  then show "moves_forward a b"
  proof (induction rule: rtranclp_induct)
    case base
    show ?case by (rule moves_forward_refl)
  next
    case (step y z)
    have "moves_forward y z"
      using step.hyps(2) by (cases y; cases z) (simp_all add: moves_forward_def)
    with step.IH show ?case by (rule moves_forward_trans)
  qed
qed

lemma init_forward:
  "moves_forward (Engine.status s) (Engine.status (snd (init env clock account wflow ver inst ev s)))"
proof (cases "isRunning s \<or> Engine.status s \<in> {Errored, Terminated, Complete}")
  case True
  then show ?thesis by (simp add: init_early(3) moves_forward_refl)
next
  case False
  then have g: "\<not> isRunning s" and nt: "Engine.status s \<notin> {Errored, Terminated, Complete}"
    by auto
  obtain e st where st: "st \<in> {Complete, Errored}"
    and fin: "snd (init env clock account wflow ver inst ev s) =
       (snd (init_activate clock account wflow ver inst ev s))
         \<lparr>logs := logs (snd (init_activate clock account wflow ver inst ev s)) @ [e],
          Engine.status := st, isRunning := False, started := []\<rparr>"
    using init_first_run [OF g nt, of env clock account wflow ver inst ev] by blast
  show ?thesis
    using st nt by (cases "Engine.status s") (auto simp add: fin moves_forward_def)
qed

lemma invoke_forward:
  "\<not> is_SetStatus op \<Longrightarrow> moves_forward (Engine.status s) (Engine.status (invoke env op s))"
  by (cases op)
     (simp_all add: init_forward moves_forward_refl getStatus_def readLogs_def abort_def
        userTriggeredTerminate_def)

lemma invoke_all_forward:
  "\<forall>op \<in> set ops. \<not> is_SetStatus op \<Longrightarrow>
   moves_forward (Engine.status s) (Engine.status (invoke_all env ops s))"
proof (induction ops arbitrary: s)
  case Nil
  show ?case by (simp add: moves_forward_refl)
next
  case (Cons op ops)
  have "moves_forward (Engine.status s) (Engine.status (invoke env op s))"
    using Cons.prems by (simp add: invoke_forward)
  moreover have "moves_forward (Engine.status (invoke env op s))
      (Engine.status (invoke_all env ops (invoke env op s)))"
    using Cons.prems by (intro Cons.IH) simp
  ultimately show ?case
    by (simp add: moves_forward_trans)
qed

subsection \<open>Stored metadata and the normalized error\<close>

lemma init_start_kv:
  assumes "\<not> isRunning s" "Engine.status s \<notin> {Errored, Terminated, Complete}"
  shows "kv (ctx (snd (init_start account wflow ver inst ev s))) =
     (if kv (ctx s) INSTANCE_METADATA = None
      then (kv (ctx s))(INSTANCE_METADATA \<mapsto>
          \<lparr>InstanceMetadata.accountId = account, workflow = wflow, version = ver,
           instance = inst, InstanceMetadata.event = ev\<rparr>)
      else kv (ctx s))"
  using assms
  by (simp add: init_start_def getStatus_def terminal_statuses_def Let_def
      start_unawaited_def writeLog_def storage_get_def storage_put_def)

lemma init_first_activation_kv:
  assumes "\<not> isRunning s" "Engine.status s \<notin> {Errored, Terminated, Complete}"
    "kv (ctx s) INSTANCE_METADATA = None"
  shows "kv (ctx (snd (init_activate clock account wflow ver inst ev s))) INSTANCE_METADATA =
     Some \<lparr>InstanceMetadata.accountId = account, workflow = wflow, version = ver,
           instance = inst, InstanceMetadata.event = ev\<rparr>"
    and "kv (ctx (snd (init env clock account wflow ver inst ev s))) INSTANCE_METADATA =
     Some \<lparr>InstanceMetadata.accountId = account, workflow = wflow, version = ver,
           instance = inst, InstanceMetadata.event = ev\<rparr>"
proof -
  show "kv (ctx (snd (init_activate clock account wflow ver inst ev s))) INSTANCE_METADATA =
     Some \<lparr>InstanceMetadata.accountId = account, workflow = wflow, version = ver,
           instance = inst, InstanceMetadata.event = ev\<rparr>"
    using assms
      init_start_kv [of "init_timers clock account wflow ver inst ev s" account wflow ver inst ev]
    by (simp add: init_activate_def init_timers_frame)
  then show "kv (ctx (snd (init env clock account wflow ver inst ev s))) INSTANCE_METADATA =
     Some \<lparr>InstanceMetadata.accountId = account, workflow = wflow, version = ver,
           instance = inst, InstanceMetadata.event = ev\<rparr>"
    by (simp add: init_ctx)
qed

lemma init_metadata_present:
  assumes "kv (ctx t) INSTANCE_METADATA \<noteq> None"
  shows "puts (ctx (snd (init env clock account wflow ver inst ev t))) = puts (ctx t)"
    and "activation_entries
           (drop (length (logs t)) (logs (snd (init env clock account wflow ver inst ev t)))) = []"
proof -
  have "puts (ctx (snd (init env clock account wflow ver inst ev t))) = puts (ctx t) \<and>
    activation_entries
      (drop (length (logs t)) (logs (snd (init env clock account wflow ver inst ev t)))) = []"
  proof (cases "isRunning t \<or> Engine.status t \<in> {Errored, Terminated, Complete}")
    case True
    then show ?thesis
      by (simp add: init_early(2,5) activation_entries_def)
  next
    case False
    then have g: "\<not> isRunning t" and nt: "Engine.status t \<notin> {Errored, Terminated, Complete}"
      by auto
    let ?a = "snd (init_activate clock account wflow ver inst ev t)"
    obtain e st where e: "LogEntry.event e \<in> {WORKFLOW_SUCCESS, WORKFLOW_FAILURE}"
      and fin: "snd (init env clock account wflow ver inst ev t) =
         ?a\<lparr>logs := logs ?a @ [e], Engine.status := st, isRunning := False, started := []\<rparr>"
      using init_first_run [OF g nt, of env clock account wflow ver inst ev] by blast
    have la: "logs ?a = logs t"
      using init_activate_logs [OF g nt, of clock account wflow ver inst ev] assms by simp
    have pa: "puts (ctx ?a) = puts (ctx t)"
      using init_activate_puts [OF g nt, of clock account wflow ver inst ev] assms by simp
    have "activation_entries [e] = []"
      using e by (auto simp add: activation_entries_def)
    then show ?thesis
      by (simp add: fin la pa)
  qed
  then show "puts (ctx (snd (init env clock account wflow ver inst ev t))) = puts (ctx t)"
    and "activation_entries
           (drop (length (logs t)) (logs (snd (init env clock account wflow ver inst ev t)))) = []"
    by simp_all
qed

lemma normalize_error_cases:
  "normalize_error E =
     (case E of
        JError nm msg \<Rightarrow> JObject [(''message'', JStr msg), (''name'', JStr nm)]
      | _ \<Rightarrow> JObject [(''name'', JStr ''Error''), (''message'', E)])"
  by (cases E) simp_all

section \<open>The claims\<close>



text \<open>
  C2. Whenever \<open>init\<close> gets to run the user's workflow and the workflow throws \<open>E\<close>,
  whatever value \<open>E\<close> is, \<open>init\<close> completes normally with \<open>{id: instance.name}\<close>. The
  error is normalized from \<open>E\<close>: an \<open>Error\<close> gives its own message and name, any other
  value becomes the message of an error named \<open>Error\<close>; either way the object has exactly
  the fields \<open>name\<close> and \<open>message\<close>. The log is the old log, the first-activation entries
  if this was the first activation, and then a \<open>WORKFLOW_FAILURE\<close> entry holding that
  object. After the entry is written the status is set to \<open>Errored\<close> by a transaction,
  and the guard is cleared. The witness throws an \<open>Error\<close> and a string.
\<close>

theorem init_failure_path:
  assumes "\<not> isRunning s"
    and "Engine.status s \<notin> {Complete, Errored, Terminated}"
    and "run (USER_WORKFLOW env) ev
           (Context (snd (init_activate clock account wflow ver inst ev s))) = Inl E"
  shows "fst (init env clock account wflow ver inst ev s) =
           Inr (Some \<lparr>InitResult.id = DatabaseInstance.name inst\<rparr>) \<and>
         normalize_error E =
           (case E of
              JError nm msg \<Rightarrow> JObject [(''message'', JStr msg), (''name'', JStr nm)]
            | _ \<Rightarrow> JObject [(''name'', JStr ''Error''), (''message'', E)]) \<and>
         (\<exists>ks. object_keys (normalize_error E) = Some ks \<and>
               set ks = {''name'', ''message''} \<and> distinct ks) \<and>
         logs (snd (init env clock account wflow ver inst ev s)) =
           logs s @
           (if kv (ctx s) INSTANCE_METADATA = None then first_activation_entries ver ev else []) @
           [log_entry WORKFLOW_FAILURE [(''error'', normalize_error E)]] \<and>
         snd (init env clock account wflow ver inst ev s) =
           (snd (transaction (setStatus account (DatabaseInstance.name inst) Errored)
              (writeLog WORKFLOW_FAILURE None None [(''error'', normalize_error E)]
                 (snd (init_activate clock account wflow ver inst ev s)))))
           \<lparr>isRunning := False\<rparr> \<and>
         Engine.status (snd (init env clock account wflow ver inst ev s)) = Errored \<and>
         \<not> isRunning (snd (init env clock account wflow ver inst ev s))"
proof -
  have nt: "Engine.status s \<notin> {Errored, Terminated, Complete}"
    using assms(2) by auto
  let ?a = "snd (init_activate clock account wflow ver inst ev s)"
  let ?w = "writeLog WORKFLOW_FAILURE None None [(''error'', normalize_error E)] ?a"
  have run: "init env clock account wflow ver inst ev s = init_resume env account inst ev ?a"
    using assms(1) nt by (rule init_awaiting)
  have fin: "init_resume env account inst ev ?a =
    (Inr (Some \<lparr>InitResult.id = DatabaseInstance.name inst\<rparr>),
     ?a\<lparr>logs := logs ?a @ [\<lparr>LogEntry.event = WORKFLOW_FAILURE, group = None, target = None,
                            metadata = [(''error'', normalize_error E)]\<rparr>],
       Engine.status := Errored, isRunning := False, started := []\<rparr>)"
    using assms(3) by (rule init_resume_thrown)
  have tx: "(snd (transaction (setStatus account (DatabaseInstance.name inst) Errored) ?w))
           \<lparr>isRunning := False\<rparr> = snd (init env clock account wflow ver inst ev s)"
    by (simp add: run fin transaction_setStatus writeLog_def)
  have nc: "normalize_error E =
           (case E of
              JError nm msg \<Rightarrow> JObject [(''message'', JStr msg), (''name'', JStr nm)]
            | _ \<Rightarrow> JObject [(''name'', JStr ''Error''), (''message'', E)])"
    by (rule normalize_error_cases)
  have lg: "logs (snd (init env clock account wflow ver inst ev s)) =
           logs s @
           (if kv (ctx s) INSTANCE_METADATA = None then first_activation_entries ver ev else []) @
           [log_entry WORKFLOW_FAILURE [(''error'', normalize_error E)]]"
    using init_activate_logs [OF assms(1) nt, of clock account wflow ver inst ev]
    by (simp add: run fin log_entry_def)
  have rest: "fst (init env clock account wflow ver inst ev s) =
           Inr (Some \<lparr>InitResult.id = DatabaseInstance.name inst\<rparr>)"
    "Engine.status (snd (init env clock account wflow ver inst ev s)) = Errored"
    "\<not> isRunning (snd (init env clock account wflow ver inst ev s))"
    by (simp_all add: run fin)
  show ?thesis
    using normalize_error_keys [of E] nc lg rest tx by (intro conjI) simp_all
qed

theorem init_failure_path_witness:
  "\<not> isRunning engine0 \<and> Engine.status engine0 = Queued \<and>
   fst (init env_throws 100 7 workflow0 version0 instance0 event0 engine0) =
     Inr (Some \<lparr>InitResult.id = ''run-1''\<rparr>) \<and>
   Engine.status (snd (init env_throws 100 7 workflow0 version0 instance0 event0 engine0)) = Errored \<and>
   logs (snd (init env_throws 100 7 workflow0 version0 instance0 event0 engine0)) =
     first_activation_entries version0 event0 @
     [log_entry WORKFLOW_FAILURE
        [(''error'', JObject [(''message'', JStr ''boom''), (''name'', JStr ''TypeError'')])]] \<and>
   logs (snd (init env_throws_text 100 7 workflow0 version0 instance0 event0 engine0)) =
     first_activation_entries version0 event0 @
     [log_entry WORKFLOW_FAILURE
        [(''error'', JObject [(''name'', JStr ''Error''), (''message'', JStr ''disk full'')])]]"
proof -
  have h: "\<not> isRunning engine0" "Engine.status engine0 \<notin> {Complete, Errored, Terminated}"
    and r1: "run (USER_WORKFLOW env_throws) event0
       (Context (snd (init_activate 100 7 workflow0 version0 instance0 event0 engine0))) =
     Inl (JError ''TypeError'' ''boom'')"
    and r2: "run (USER_WORKFLOW env_throws_text) event0
       (Context (snd (init_activate 100 7 workflow0 version0 instance0 event0 engine0))) =
     Inl (JStr ''disk full'')"
    and e: "Engine.status engine0 = Queued" "logs engine0 = []"
      "kv (ctx engine0) INSTANCE_METADATA = None" "DatabaseInstance.name instance0 = ''run-1''"
    by (simp_all add: engine0_def new_Engine_def fresh_state_def env_throws_def
        env_throws_text_def instance0_def)
  note error_path = init_failure_path [OF h r1]
  note text_path = init_failure_path [OF h r2]
  from error_path have "fst (init env_throws 100 7 workflow0 version0 instance0 event0 engine0) =
      Inr (Some \<lparr>InitResult.id = DatabaseInstance.name instance0\<rparr>)"
    by blast
  moreover from error_path have "Engine.status (snd (init env_throws 100 7 workflow0 version0 instance0 event0 engine0)) = Errored"
    by blast
  moreover from error_path have "logs (snd (init env_throws 100 7 workflow0 version0 instance0 event0 engine0)) =
      logs engine0 @
      (if kv (ctx engine0) INSTANCE_METADATA = None
       then first_activation_entries version0 event0 else []) @
      [log_entry WORKFLOW_FAILURE [(''error'', normalize_error (JError ''TypeError'' ''boom''))]]"
    by blast
  moreover from text_path have "logs (snd (init env_throws_text 100 7 workflow0 version0 instance0 event0 engine0)) =
      logs engine0 @
      (if kv (ctx engine0) INSTANCE_METADATA = None
       then first_activation_entries version0 event0 else []) @
      [log_entry WORKFLOW_FAILURE [(''error'', normalize_error (JStr ''disk full''))]]"
    by blast
  ultimately show ?thesis
    using h(1) by (simp add: e)
qed

text \<open>
  C3. A first call of \<open>init\<close> on an instance that has not started (guard clear, status
  not terminal, no metadata stored), and a second call with the same arguments, the clock
  possibly advanced. The second call may come after the first has returned, or while the
  first waits for the user's workflow: then the metadata is written once, the entries of
  kind \<open>WORKFLOW_QUEUED\<close> or \<open>WORKFLOW_START\<close> appended since the start are exactly one
  \<open>WORKFLOW_QUEUED\<close> followed by one \<open>WORKFLOW_START\<close>, and the second call adds no
  write and no log entry. The second call may also find the guard clear and the status
  not terminal again, as after a restart of the object, and so reach the test for stored
  metadata: the first call has stored the metadata, and on any engine whose storage is
  what the first call left, and indeed on any engine with metadata stored, \<open>init\<close> writes
  no metadata and appends no such entry. The witness makes the second call after the first
  returned, and again on a restarted engine, where the workflow runs a second time.
\<close>

theorem init_twice_activates_once:
  assumes "\<not> isRunning s"
    and "Engine.status s \<notin> {Complete, Errored, Terminated}"
    and "kv (ctx s) INSTANCE_METADATA = None"
  shows
    "(let s1 = snd (init env clock account wflow ver inst ev s);
          s2 = snd (init env clock' account wflow ver inst ev s1)
      in puts (ctx s2) = puts (ctx s) @
           [(INSTANCE_METADATA,
             \<lparr>InstanceMetadata.accountId = account, workflow = wflow, version = ver,
              instance = inst, InstanceMetadata.event = ev\<rparr>)] \<and>
         activation_entries (drop (length (logs s)) (logs s2)) = first_activation_entries ver ev \<and>
         puts (ctx s2) = puts (ctx s1) \<and> logs s2 = logs s1) \<and>
     (let a1 = snd (init_activate clock account wflow ver inst ev s);
          a2 = snd (init env clock' account wflow ver inst ev a1);
          a3 = snd (init_resume env account inst ev a2)
      in puts (ctx a3) = puts (ctx s) @
           [(INSTANCE_METADATA,
             \<lparr>InstanceMetadata.accountId = account, workflow = wflow, version = ver,
              instance = inst, InstanceMetadata.event = ev\<rparr>)] \<and>
         activation_entries (drop (length (logs s)) (logs a3)) = first_activation_entries ver ev \<and>
         puts (ctx a2) = puts (ctx a1) \<and> logs a2 = logs a1) \<and>
     (let s1 = snd (init env clock account wflow ver inst ev s);
          a1 = snd (init_activate clock account wflow ver inst ev s);
          stored = \<lparr>InstanceMetadata.accountId = account, workflow = wflow, version = ver,
                    instance = inst, InstanceMetadata.event = ev\<rparr>
      in kv (ctx s1) INSTANCE_METADATA = Some stored \<and>
         kv (ctx a1) INSTANCE_METADATA = Some stored \<and>
         (\<forall>t. ctx t = ctx s1 \<or> ctx t = ctx a1 \<longrightarrow>
            puts (ctx (snd (init env clock' account wflow ver inst ev t))) =
              puts (ctx s) @ [(INSTANCE_METADATA, stored)] \<and>
            activation_entries
              (drop (length (logs t))
                 (logs (snd (init env clock' account wflow ver inst ev t)))) = []) \<and>
         (\<forall>t. kv (ctx t) INSTANCE_METADATA \<noteq> None \<longrightarrow>
            puts (ctx (snd (init env clock' account wflow ver inst ev t))) = puts (ctx t) \<and>
            activation_entries
              (drop (length (logs t))
                 (logs (snd (init env clock' account wflow ver inst ev t)))) = []))"
proof -
  have nt: "Engine.status s \<notin> {Errored, Terminated, Complete}"
    using assms(2) by auto
  let ?s1 = "snd (init env clock account wflow ver inst ev s)"
  let ?a1 = "snd (init_activate clock account wflow ver inst ev s)"
  let ?a2 = "snd (init env clock' account wflow ver inst ev ?a1)"
  let ?md = "\<lparr>InstanceMetadata.accountId = account, workflow = wflow, version = ver,
              instance = inst, InstanceMetadata.event = ev\<rparr>"
  note first = init_first_activation_effect [OF assms(1) nt assms(3), of env clock account wflow ver inst ev]
  have stored: "kv (ctx ?s1) INSTANCE_METADATA = Some ?md" "kv (ctx ?a1) INSTANCE_METADATA = Some ?md"
    using init_first_activation_kv [OF assms(1) nt assms(3)] by simp_all
  have t1: "isRunning ?s1 \<or> Engine.status ?s1 \<in> {Errored, Terminated, Complete}"
    using first(3) by simp
  have seq: "puts (ctx (snd (init env clock' account wflow ver inst ev ?s1))) = puts (ctx ?s1)"
       "logs (snd (init env clock' account wflow ver inst ev ?s1)) = logs ?s1"
    using init_early(5) [OF t1] init_early(2) [OF t1] by simp_all
  have r1: "isRunning ?a1 \<or> Engine.status ?a1 \<in> {Errored, Terminated, Complete}"
    using init_activate_status(2) [OF assms(1) nt] by simp
  have re: "puts (ctx ?a2) = puts (ctx ?a1)" "logs ?a2 = logs ?a1"
    using init_early(5) [OF r1] init_early(2) [OF r1] by simp_all
  have la: "logs ?a1 = logs s @ first_activation_entries ver ev"
    using init_activate_logs [OF assms(1) nt] assms(3) by simp
  have pa: "puts (ctx ?a1) = puts (ctx s) @ [(INSTANCE_METADATA, ?md)]"
    using init_activate_puts [OF assms(1) nt] assms(3) by simp
  obtain e st where e: "LogEntry.event e \<in> {WORKFLOW_SUCCESS, WORKFLOW_FAILURE}"
    and fin: "init_resume env account inst ev ?a2 =
       (Inr (Some \<lparr>InitResult.id = DatabaseInstance.name inst\<rparr>),
        ?a2\<lparr>logs := logs ?a2 @ [e], Engine.status := st, isRunning := False, started := []\<rparr>)"
    using init_resume_shape [of env account inst ev ?a2] by blast
  have "activation_entries [e] = []"
    using e by (auto simp add: activation_entries_def)
  then have a3: "activation_entries (drop (length (logs s)) (logs (snd (init_resume env account inst ev ?a2))))
      = first_activation_entries ver ev"
    using activation_entries_first [of ver ev]
    by (simp add: fin re la activation_entries_def)
  have p3: "puts (ctx (snd (init_resume env account inst ev ?a2))) = puts (ctx ?a1)"
    by (simp add: fin re)
  have replay: "puts (ctx (snd (init env clock' account wflow ver inst ev t))) =
              puts (ctx s) @ [(INSTANCE_METADATA, ?md)] \<and>
            activation_entries
              (drop (length (logs t))
                 (logs (snd (init env clock' account wflow ver inst ev t)))) = []"
    if "ctx t = ctx ?s1 \<or> ctx t = ctx ?a1" for t
  proof -
    have present: "kv (ctx t) INSTANCE_METADATA \<noteq> None"
      using that stored by auto
    have "puts (ctx t) = puts (ctx s) @ [(INSTANCE_METADATA, ?md)]"
      using that first(1) pa by auto
    then show ?thesis
      using init_metadata_present [OF present, of env clock' account wflow ver inst ev] by simp
  qed
  have stays: "puts (ctx (snd (init env clock' account wflow ver inst ev t))) = puts (ctx t) \<and>
            activation_entries
              (drop (length (logs t))
                 (logs (snd (init env clock' account wflow ver inst ev t)))) = []"
    if "kv (ctx t) INSTANCE_METADATA \<noteq> None" for t
    using init_metadata_present [OF that, of env clock' account wflow ver inst ev] by simp
  have A: "puts (ctx (snd (init env clock' account wflow ver inst ev ?s1))) =
      puts (ctx s) @ [(INSTANCE_METADATA, ?md)]"
    using seq(1) first(1) by simp
  have B: "activation_entries (drop (length (logs s))
      (logs (snd (init env clock' account wflow ver inst ev ?s1)))) = first_activation_entries ver ev"
    using seq(2) first(2) by simp
  have C: "puts (ctx (snd (init_resume env account inst ev ?a2))) =
      puts (ctx s) @ [(INSTANCE_METADATA, ?md)]"
    using p3 pa by simp
  show ?thesis
    unfolding Let_def
    using A B seq C a3 re stored replay stays by (intro conjI allI impI) blast+
qed

theorem init_twice_activates_once_witness:
  "\<not> isRunning engine0 \<and> Engine.status engine0 = Queued \<and>
   kv (ctx engine0) INSTANCE_METADATA = None \<and>
   puts (ctx (snd (init env_resolves 200 7 workflow0 version0 instance0 event0
      (snd (init env_resolves 100 7 workflow0 version0 instance0 event0 engine0))))) =
     [(INSTANCE_METADATA,
       \<lparr>InstanceMetadata.accountId = 7, workflow = workflow0, version = version0,
        instance = instance0, InstanceMetadata.event = event0\<rparr>)] \<and>
   activation_entries (logs (snd (init env_resolves 200 7 workflow0 version0 instance0 event0
      (snd (init env_resolves 100 7 workflow0 version0 instance0 event0 engine0))))) =
     first_activation_entries version0 event0 \<and>
   puts (ctx (snd (init env_resolves 200 7 workflow0 version0 instance0 event0
      (new_Engine 30000
         (ctx (snd (init env_resolves 100 7 workflow0 version0 instance0 event0 engine0))))))) =
     [(INSTANCE_METADATA,
       \<lparr>InstanceMetadata.accountId = 7, workflow = workflow0, version = version0,
        instance = instance0, InstanceMetadata.event = event0\<rparr>)] \<and>
   activation_entries (logs (snd (init env_resolves 200 7 workflow0 version0 instance0 event0
      (new_Engine 30000
         (ctx (snd (init env_resolves 100 7 workflow0 version0 instance0 event0 engine0))))))) =
     [] \<and>
   Engine.status (snd (init env_resolves 200 7 workflow0 version0 instance0 event0
      (new_Engine 30000
         (ctx (snd (init env_resolves 100 7 workflow0 version0 instance0 event0 engine0)))))) =
     Complete"
proof -
  let ?s1 = "snd (init env_resolves 100 7 workflow0 version0 instance0 event0 engine0)"
  let ?r = "new_Engine 30000 (ctx ?s1)"
  let ?md = "\<lparr>InstanceMetadata.accountId = 7, workflow = workflow0, version = version0,
        instance = instance0, InstanceMetadata.event = event0\<rparr>"
  have h: "\<not> isRunning engine0" "Engine.status engine0 \<notin> {Complete, Errored, Terminated}"
    "kv (ctx engine0) INSTANCE_METADATA = None"
    and e: "Engine.status engine0 = Queued" "logs engine0 = []" "puts (ctx engine0) = []"
    by (simp_all add: engine0_def new_Engine_def fresh_state_def)
  have r: "ctx ?r = ctx ?s1" "logs ?r = []" "\<not> isRunning ?r"
    "Engine.status ?r \<notin> {Errored, Terminated, Complete}"
    by (simp_all add: new_Engine_def)
  note twice = init_twice_activates_once [OF h, of env_resolves 100 7 workflow0 version0
      instance0 event0 200, unfolded Let_def]
  from twice have "puts (ctx (snd (init env_resolves 200 7 workflow0 version0 instance0 event0 ?s1))) =
     puts (ctx engine0) @ [(INSTANCE_METADATA, ?md)]"
    by blast
  moreover from twice have "activation_entries (drop (length (logs engine0))
      (logs (snd (init env_resolves 200 7 workflow0 version0 instance0 event0 ?s1)))) =
     first_activation_entries version0 event0"
    by blast
  moreover from twice r(1) have "puts (ctx (snd (init env_resolves 200 7 workflow0 version0 instance0 event0 ?r))) =
     puts (ctx engine0) @ [(INSTANCE_METADATA, ?md)]"
    by blast
  moreover from twice r(1) have "activation_entries (drop (length (logs ?r))
      (logs (snd (init env_resolves 200 7 workflow0 version0 instance0 event0 ?r)))) = []"
    by blast
  moreover have "Engine.status (snd (init env_resolves 200 7 workflow0 version0 instance0 event0 ?r)) =
     Complete"
  proof -
    have "run (USER_WORKFLOW env_resolves) event0
        (Context (snd (init_activate 200 7 workflow0 version0 instance0 event0 ?r))) =
        Inr (JStr ''shipped'')"
      by (simp add: env_resolves_def)
    then show ?thesis
      by (simp add: init_awaiting [OF r(3,4)] init_resume_resolved)
  qed
  ultimately show ?thesis
    using h(1,3) by (simp add: e r(2))
qed

text \<open>
  C4. In a terminal status (\<open>Complete\<close>, \<open>Errored\<close>, \<open>Terminated\<close>), \<open>init\<close> returns
  \<open>undefined\<close> and leaves the status, the log and the key/value storage as they were.
\<close>

theorem init_terminal_noop:
  assumes "Engine.status s \<in> {Complete, Errored, Terminated}"
  shows "fst (init env clock account wflow ver inst ev s) = Inr None \<and>
         Engine.status (snd (init env clock account wflow ver inst ev s)) = Engine.status s \<and>
         logs (snd (init env clock account wflow ver inst ev s)) = logs s \<and>
         puts (ctx (snd (init env clock account wflow ver inst ev s))) = puts (ctx s) \<and>
         kv (ctx (snd (init env clock account wflow ver inst ev s))) = kv (ctx s)"
proof -
  have "isRunning s \<or> Engine.status s \<in> {Errored, Terminated, Complete}"
    using assms by auto
  then show ?thesis
    by (simp add: init_early)
qed

theorem init_terminal_noop_witness:
  "Engine.status engine_complete \<in> {Complete, Errored, Terminated} \<and>
   Engine.status (snd (init env_resolves 100 7 workflow0 version0 instance0 event0 engine_complete))
     = Complete \<and>
   logs (snd (init env_resolves 100 7 workflow0 version0 instance0 event0 engine_complete)) = []"
  using init_terminal_noop [of engine_complete env_resolves 100 7 workflow0 version0 instance0 event0]
  by (simp add: engine_complete_def engine0_def new_Engine_def)

text \<open>
  C5, amended. Over any sequence of \<open>init\<close>, \<open>getStatus\<close>, \<open>readLogs\<close>, \<open>abort\<close> and
  \<open>userTriggeredTerminate\<close> invocations the status only moves along
  \<open>Queued -> Running -> {Complete, Errored, Terminated}\<close> and a terminal status stays;
  \<open>setStatus\<close> stores whatever status it is given. The witness runs such a sequence from
  \<open>Queued\<close> to \<open>Errored\<close>. As stated, with \<open>setStatus\<close> among the operations, the claim
  fails: the last theorem below takes a \<open>Complete\<close> engine back to \<open>Queued\<close>.
\<close>

theorem status_forward_without_setStatus:
  assumes "\<forall>op \<in> set ops. \<not> is_SetStatus op"
  shows "status_step\<^sup>*\<^sup>* (Engine.status s) (Engine.status (invoke_all env ops s)) \<and>
         (Engine.status s \<in> {Complete, Errored, Terminated} \<longrightarrow>
            Engine.status (invoke_all env ops s) = Engine.status s) \<and>
         Engine.status (snd (setStatus account i st s)) = st"
  using invoke_all_forward [OF assms, of s env]
    moves_forward_terminal [of "Engine.status s" "Engine.status (invoke_all env ops s)"]
  by (auto simp add: moves_forward_is_reachability setStatus_def)

theorem status_forward_without_setStatus_witness:
  "Engine.status engine0 = Queued \<and>
   Engine.status (invoke_all env_throws
     [Init 100 7 workflow0 version0 instance0 event0, GetStatus 7 ''run-1'',
      Abort ''late'', Init 200 7 workflow0 version0 instance0 event0, ReadLogs,
      UserTriggeredTerminate] engine0) = Errored \<and>
   status_step\<^sup>*\<^sup>* Queued Errored"
  using status_forward_without_setStatus [of
      "[Init 100 7 workflow0 version0 instance0 event0, GetStatus 7 ''run-1'',
        Abort ''late'', Init 200 7 workflow0 version0 instance0 event0, ReadLogs,
        UserTriggeredTerminate]" engine0 env_throws]
  by (simp add: engine0_def new_Engine_def fresh_state_def env_throws_def
      init_def init_activate_def init_timers_def init_start_def init_resume_def
      try_catch_def init_try_def init_catch_def popPastEntries_def handleNextAlarm_def
      sql_delete_def next_wakeup_def getStatus_def setStatus_def readLogs_def abort_def
      userTriggeredTerminate_def terminal_statuses_def storage_get_def storage_put_def
      writeLog_def workflowRunningHandler_def start_unawaited_def transaction_def
      commit_started_def Let_def)

theorem setStatus_leaves_terminal:
  "Engine.status engine_complete \<in> {Complete, Errored, Terminated} \<and>
   Engine.status (invoke_all env_resolves [SetStatus 7 ''run-1'' Queued] engine_complete) = Queued \<and>
   \<not> status_step\<^sup>*\<^sup>* (Engine.status engine_complete)
       (Engine.status (invoke_all env_resolves [SetStatus 7 ''run-1'' Queued] engine_complete))"
  using moves_forward_is_reachability [of Complete Queued]
  by (simp add: engine_complete_def setStatus_def moves_forward_def)

text \<open>
  C6, amended. \<open>init\<close> returns \<open>{id: instance.name}\<close> exactly when it passes the guard
  and the terminal check; on the two early returns it returns \<open>undefined\<close>. As stated the
  claim fails on an engine whose run is in progress, which the second theorem shows.
\<close>

theorem init_return_value:
  "fst (init env clock account wflow ver inst ev s) =
     (if isRunning s \<or> Engine.status s \<in> {Errored, Terminated, Complete}
      then Inr None
      else Inr (Some \<lparr>InitResult.id = DatabaseInstance.name inst\<rparr>))"
proof (cases "isRunning s \<or> Engine.status s \<in> {Errored, Terminated, Complete}")
  case True
  then show ?thesis by (simp add: init_early(1))
next
  case False
  then have g: "\<not> isRunning s" and nt: "Engine.status s \<notin> {Errored, Terminated, Complete}"
    by auto
  have "fst (init_resume env account inst ev t) =
      Inr (Some \<lparr>InitResult.id = DatabaseInstance.name inst\<rparr>)" for t
    by (simp add: init_resume_def try_catch_def init_try_def init_catch_def Let_def
        split: sum.splits prod.splits)
  then show ?thesis
    using False by (simp add: init_awaiting [OF g nt])
qed

theorem init_returns_undefined_when_running:
  "fst (init env_resolves 100 7 workflow0 version0 instance0 event0 engine_running)
     \<noteq> Inr (Some \<lparr>InitResult.id = DatabaseInstance.name instance0\<rparr>)"
  by (simp add: init_early(1) engine_running_def)

text \<open>
  C7, amended. \<open>init\<close> drains the due entries and arms the alarm at the least remaining
  timestamp before anything else: the table and the alarm are already so when the user's
  workflow is awaited, and they are so when \<open>init\<close> returns, on every path. The other
  five operations do not touch the table or the alarm. As stated the claim fails for
  \<open>getStatus\<close>: the second theorem shows a row due at 10 still in the table, and the
  alarm still set for 10, after a \<open>getStatus\<close>, where \<open>init\<close> at time 100 removes it.
\<close>

theorem init_drains_then_rearms:
  "priority_queue (ctx (snd (init_activate clock account wflow ver inst ev s))) =
     filter (\<lambda>r. \<not> target_timestamp r \<le> clock) (priority_queue (ctx s)) \<and>
   alarm (ctx (snd (init_activate clock account wflow ver inst ev s))) =
     next_wakeup (filter (\<lambda>r. \<not> target_timestamp r \<le> clock) (priority_queue (ctx s))) \<and>
   priority_queue (ctx (snd (init env clock account wflow ver inst ev s))) =
     filter (\<lambda>r. \<not> target_timestamp r \<le> clock) (priority_queue (ctx s)) \<and>
   alarm (ctx (snd (init env clock account wflow ver inst ev s))) =
     next_wakeup (filter (\<lambda>r. \<not> target_timestamp r \<le> clock) (priority_queue (ctx s))) \<and>
   ctx (snd (getStatus account i s)) = ctx s \<and>
   ctx (snd (setStatus account i st s)) = ctx s \<and>
   ctx (snd (readLogs s)) = ctx s \<and>
   ctx (snd (abort reason s)) = ctx s \<and>
   ctx (snd (userTriggeredTerminate s)) = ctx s"
  by (simp add: init_queue init_activate_queue getStatus_def setStatus_def readLogs_def
      abort_def userTriggeredTerminate_def)

theorem getStatus_leaves_due_timer:
  "priority_queue (ctx (snd (getStatus 7 ''run-1'' engine_due))) = [due_row] \<and>
   target_timestamp due_row \<le> 100 \<and>
   alarm (ctx (snd (getStatus 7 ''run-1'' engine_due))) = Some 10 \<and>
   priority_queue (ctx (snd (init env_resolves 100 7 workflow0 version0 instance0 event0 engine_due))) = []"
  by (simp add: init_queue getStatus_def engine_due_def due_row_def)

text \<open>
  C8 at a concrete input: an engine in status \<open>Running\<close> with a run in progress. Both
  \<open>abort\<close> and \<open>userTriggeredTerminate\<close> return the engine as it was: the status is not
  \<open>Terminated\<close> and nothing is logged.
\<close>

theorem abort_changes_nothing:
  "Engine.status engine_running = Running \<and>
   snd (abort ''operator request'' engine_running) = engine_running \<and>
   Engine.status (snd (abort ''operator request'' engine_running)) \<noteq> Terminated \<and>
   logs (snd (abort ''operator request'' engine_running)) = logs engine_running \<and>
   snd (userTriggeredTerminate engine_running) = engine_running \<and>
   Engine.status (snd (userTriggeredTerminate engine_running)) \<noteq> Terminated"
  by (simp add: abort_def userTriggeredTerminate_def engine_running_def)

text \<open>
  C9. From a new engine on empty storage, after any sequence of public operations,
  restarts, \<open>enqueue\<close> calls and further \<open>INSERT\<close> or \<open>DELETE\<close> statements, no two rows
  of \<open>priority_queue\<close> agree on \<open>(action, entryType, hash)\<close>; and a repeated \<open>enqueue\<close>
  of the same entry type and hash changes nothing.
\<close>

theorem priority_queue_keys_unique:
  "unique_keys
     (priority_queue (ctx (perform_all env acts (new_Engine engine_timeout fresh_state)))) \<and>
   enqueue clock' ty h target_ts' (enqueue clock ty h target_ts c) =
     enqueue clock ty h target_ts c"
proof
  show "unique_keys
     (priority_queue (ctx (perform_all env acts (new_Engine engine_timeout fresh_state))))"
    by (rule perform_all_unique) (simp add: new_Engine_def fresh_state_def unique_keys_def)
  show "enqueue clock' ty h target_ts' (enqueue clock ty h target_ts c) =
     enqueue clock ty h target_ts c"
    by (rule enqueue_twice)
qed

text \<open>
  C10. \<open>getStatus\<close> and \<open>setStatus\<close> do the same for any two account and instance
  arguments: \<open>getStatus\<close> returns the engine's own status, \<open>setStatus\<close> stores the given
  one.
\<close>

theorem status_arguments_ignored:
  "getStatus account inst s = getStatus account' inst' s \<and>
   fst (getStatus account inst s) = Engine.status s \<and>
   setStatus account inst st s = setStatus account' inst' st s"
  by (simp add: getStatus_def setStatus_def)

end
